theory Spec2Isabelle
  imports Complex_Main "HOL-Library.AList"
begin

section \<open>Data model of the advertisement service\<close>

text \<open>
  The service of \<^verbatim>\<open>main.py\<close> keeps its records in one module-level dictionary and
  serves six routes. Every handler is embedded as a function that takes the dictionary and
  returns its result together with the dictionary it leaves behind. An exception raised in a
  handler is a value of \<open>error\<close>: the three \<^verbatim>\<open>HTTPException\<close>/validation outcomes of the
  source, and \<open>InternalError\<close> for any other Python exception (\<^verbatim>\<open>AttributeError\<close>,
  \<^verbatim>\<open>TypeError\<close>, a pydantic error raised inside a handler), which the framework answers
  with status 500.
\<close>

datatype error = ValidationError | NotFound | InvalidRange | InternalError

text \<open>
  A Python \<^verbatim>\<open>datetime\<close> is either offset-naive or offset-aware. \<^verbatim>\<open>datetime.utcnow()\<close>
  returns a naive value; a query parameter such as \<^verbatim>\<open>2024-01-01T00:00:00Z\<close> is parsed to an
  aware one. Two values of the same kind are ordered by their instant (an integer number of
  microseconds here); \<^verbatim>\<open><\<close> and \<^verbatim>\<open>>\<close> between a naive and an aware value raise
  \<^verbatim>\<open>TypeError\<close>.
\<close>

datatype datetime = Naive int | Aware int

fun datetime_lt :: "datetime \<Rightarrow> datetime \<Rightarrow> error + bool" where
  "datetime_lt (Naive a) (Naive b) = Inr (a < b)"
| "datetime_lt (Aware a) (Aware b) = Inr (a < b)"
| "datetime_lt (Naive a) (Aware b) = Inl InternalError"
| "datetime_lt (Aware a) (Naive b) = Inl InternalError"

definition datetime_gt :: "datetime \<Rightarrow> datetime \<Rightarrow> error + bool" where
  "datetime_gt a b = datetime_lt b a"

text \<open>
  \<^verbatim>\<open>class Advertisement\<close>. The identifier is kept as its textual rendering
  \<^verbatim>\<open>str(advertisement.id)\<close>, which is what the dictionary is keyed by; prices are reals
  (the handlers only compare them). The class declares \<^verbatim>\<open>title: str\<close> and so on, but an
  attribute of a Python object can hold \<^verbatim>\<open>None\<close> after \<^verbatim>\<open>setattr\<close>, so the four
  mutable fields are options.
\<close>

record advertisement =
  ad_id :: string
  title :: "string option"
  description :: "string option"
  price :: "real option"
  author :: "string option"
  created_at :: datetime

text \<open>\<^verbatim>\<open>class AdvertisementCreate\<close>: the decoded body of a POST request.\<close>

record advertisement_create =
  c_title :: string
  c_description :: string
  c_price :: real
  c_author :: string

text \<open>
  \<^verbatim>\<open>class AdvertisementUpdate\<close>: the decoded body of a PATCH request. Each field is
  unset (\<open>None\<close>), set to JSON \<^verbatim>\<open>null\<close> (\<open>Some None\<close>) or set to a value
  (\<open>Some (Some v)\<close>); pydantic records which fields were set.
\<close>

record advertisement_update =
  u_title :: "string option option"
  u_description :: "string option option"
  u_price :: "real option option"
  u_author :: "string option option"

text \<open>The seven optional query parameters of \<^verbatim>\<open>search_advertisements\<close>.\<close>

record search_query =
  q_title :: "string option"
  q_description :: "string option"
  q_author :: "string option"
  q_price_min :: "real option"
  q_price_max :: "real option"
  q_created_after :: "datetime option"
  q_created_before :: "datetime option"

text \<open>
  \<^verbatim>\<open>advertisements_db = {}\<close>: a Python dictionary iterates in insertion order, assigning to
  a key that is present keeps its position, and \<^verbatim>\<open>del\<close> removes the entry. That is
  \<open>AList.update\<close> and \<open>AList.delete\<close> on an association list.
\<close>

type_synonym db = "(string \<times> advertisement) list"

definition dict_values :: "db \<Rightarrow> advertisement list" where
  "dict_values d = map snd d"

section \<open>Declared field constraints\<close>

definition length_between :: "nat \<Rightarrow> nat \<Rightarrow> string \<Rightarrow> bool" where
  "length_between lo hi s = (lo \<le> length s \<and> length s \<le> hi)"

text \<open>The \<^verbatim>\<open>Field(...)\<close> constraints of \<^verbatim>\<open>AdvertisementCreate\<close>.\<close>

definition AdvertisementCreate_valid :: "advertisement_create \<Rightarrow> bool" where
  "AdvertisementCreate_valid b =
     (length_between 1 200 (c_title b) \<and> length_between 1 2000 (c_description b)
      \<and> 0 < c_price b \<and> length_between 1 100 (c_author b))"

text \<open>
  The constraints of \<^verbatim>\<open>AdvertisementUpdate\<close>: a field declared
  \<^verbatim>\<open>Optional[str] = Field(None, min_length=1, max_length=200)\<close> accepts being absent, accepts
  \<^verbatim>\<open>null\<close>, and checks the bounds of a string.
\<close>

definition optional_str_ok :: "nat \<Rightarrow> nat \<Rightarrow> string option option \<Rightarrow> bool" where
  "optional_str_ok lo hi f =
     (case f of None \<Rightarrow> True | Some None \<Rightarrow> True | Some (Some s) \<Rightarrow> length_between lo hi s)"

definition optional_gt0_ok :: "real option option \<Rightarrow> bool" where
  "optional_gt0_ok f = (case f of None \<Rightarrow> True | Some None \<Rightarrow> True | Some (Some p) \<Rightarrow> 0 < p)"

definition AdvertisementUpdate_valid :: "advertisement_update \<Rightarrow> bool" where
  "AdvertisementUpdate_valid u =
     (optional_str_ok 1 200 (u_title u) \<and> optional_str_ok 1 2000 (u_description u)
      \<and> optional_gt0_ok (u_price u) \<and> optional_str_ok 1 100 (u_author u))"

text \<open>
  The \<^verbatim>\<open>Query(None, min_length=1)\<close> and \<^verbatim>\<open>Query(None, gt=0)\<close> constraints of the search
  route; the two datetime parameters carry none.
\<close>

definition query_str_ok :: "string option \<Rightarrow> bool" where
  "query_str_ok f = (case f of None \<Rightarrow> True | Some s \<Rightarrow> 1 \<le> length s)"

definition query_gt0_ok :: "real option \<Rightarrow> bool" where
  "query_gt0_ok f = (case f of None \<Rightarrow> True | Some p \<Rightarrow> 0 < p)"

definition search_query_valid :: "search_query \<Rightarrow> bool" where
  "search_query_valid q =
     (query_str_ok (q_title q) \<and> query_str_ok (q_description q) \<and> query_str_ok (q_author q)
      \<and> query_gt0_ok (q_price_min q) \<and> query_gt0_ok (q_price_max q))"

text \<open>
  The constraints of \<^verbatim>\<open>class Advertisement\<close> itself (its \<^verbatim>\<open>validate_price\<close> repeats
  \<^verbatim>\<open>gt=0\<close>), as a predicate on a record.
\<close>

definition required_str_ok :: "nat \<Rightarrow> nat \<Rightarrow> string option \<Rightarrow> bool" where
  "required_str_ok lo hi f = (case f of None \<Rightarrow> False | Some s \<Rightarrow> length_between lo hi s)"

definition required_gt0_ok :: "real option \<Rightarrow> bool" where
  "required_gt0_ok f = (case f of None \<Rightarrow> False | Some p \<Rightarrow> 0 < p)"

definition Advertisement_valid :: "advertisement \<Rightarrow> bool" where
  "Advertisement_valid a =
     (required_str_ok 1 200 (title a) \<and> required_str_ok 1 2000 (description a)
      \<and> required_gt0_ok (price a) \<and> required_str_ok 1 100 (author a))"

section \<open>The record store\<close>

text \<open>
  \<^verbatim>\<open>Advertisement(**ad.dict())\<close>: the constructor takes the four fields, draws the id from
  \<^verbatim>\<open>uuid4()\<close> and the timestamp from \<^verbatim>\<open>datetime.utcnow()\<close> (both are parameters here: the
  values the environment returned), and validates; a pydantic error inside the handler is an
  internal error.
\<close>

definition Advertisement_init :: "string \<Rightarrow> int \<Rightarrow> advertisement_create \<Rightarrow> error + advertisement" where
  "Advertisement_init uuid4 utcnow ad =
     (let advertisement = \<lparr>ad_id = uuid4, title = Some (c_title ad),
            description = Some (c_description ad), price = Some (c_price ad),
            author = Some (c_author ad), created_at = Naive utcnow\<rparr>
      in if Advertisement_valid advertisement then Inr advertisement else Inl InternalError)"

definition create_advertisement ::
  "string \<Rightarrow> int \<Rightarrow> advertisement_create \<Rightarrow> db \<Rightarrow> (error + advertisement) \<times> db" where
  "create_advertisement uuid4 utcnow ad advertisements_db =
     (case Advertisement_init uuid4 utcnow ad of
        Inl e \<Rightarrow> (Inl e, advertisements_db)
      | Inr advertisement \<Rightarrow>
          (Inr advertisement, AList.update (ad_id advertisement) advertisement advertisements_db))"

text \<open>
  \<^verbatim>\<open>ad_update.dict(exclude_unset=True)\<close> keeps every field that was set, a field set to
  \<^verbatim>\<open>null\<close> included, in declaration order; the loop \<^verbatim>\<open>setattr\<close>s each one, without
  validation (the class does not enable \<^verbatim>\<open>validate_assignment\<close>).
\<close>

datatype field_value =
  Title "string option" | Description "string option" | Price "real option" | Author "string option"

definition dict_exclude_unset :: "advertisement_update \<Rightarrow> field_value list" where
  "dict_exclude_unset u =
     (case u_title u of None \<Rightarrow> [] | Some v \<Rightarrow> [Title v])
     @ (case u_description u of None \<Rightarrow> [] | Some v \<Rightarrow> [Description v])
     @ (case u_price u of None \<Rightarrow> [] | Some v \<Rightarrow> [Price v])
     @ (case u_author u of None \<Rightarrow> [] | Some v \<Rightarrow> [Author v])"

fun setattr :: "advertisement \<Rightarrow> field_value \<Rightarrow> advertisement" where
  "setattr a (Title v) = a\<lparr>title := v\<rparr>"
| "setattr a (Description v) = a\<lparr>description := v\<rparr>"
| "setattr a (Price v) = a\<lparr>price := v\<rparr>"
| "setattr a (Author v) = a\<lparr>author := v\<rparr>"

definition update_advertisement ::
  "string \<Rightarrow> advertisement_update \<Rightarrow> db \<Rightarrow> (error + advertisement) \<times> db" where
  "update_advertisement advertisement_id ad_update advertisements_db =
     (case map_of advertisements_db advertisement_id of
        None \<Rightarrow> (Inl NotFound, advertisements_db)
      | Some advertisement \<Rightarrow>
          (let update_data = dict_exclude_unset ad_update;
               advertisement' = foldl setattr advertisement update_data
           in (Inr advertisement',
               AList.update advertisement_id advertisement' advertisements_db)))"

definition delete_advertisement :: "string \<Rightarrow> db \<Rightarrow> (error + unit) \<times> db" where
  "delete_advertisement advertisement_id advertisements_db =
     (case map_of advertisements_db advertisement_id of
        None \<Rightarrow> (Inl NotFound, advertisements_db)
      | Some _ \<Rightarrow> (Inr (), AList.delete advertisement_id advertisements_db))"

definition get_advertisement :: "string \<Rightarrow> db \<Rightarrow> (error + advertisement) \<times> db" where
  "get_advertisement advertisement_id advertisements_db =
     (case map_of advertisements_db advertisement_id of
        None \<Rightarrow> (Inl NotFound, advertisements_db)
      | Some advertisement \<Rightarrow> (Inr advertisement, advertisements_db))"

section \<open>The search handler\<close>

text \<open>
  \<^verbatim>\<open>str.lower()\<close> is a function of the Python library, defined by the case tables of
  Unicode. The handler only applies it, so it is a parameter \<open>lower\<close> of the search and of
  everything that calls the search; what is proved holds for every such function. Python's
  substring test \<^verbatim>\<open>a in b\<close> is \<open>contains a b\<close>.
\<close>

fun contains :: "'a list \<Rightarrow> 'a list \<Rightarrow> bool" where
  "contains xs [] = (xs = [])"
| "contains xs (y # ys) = (take (length xs) (y # ys) = xs \<or> contains xs ys)"

text \<open>
  Each filter of the loop body is \<^verbatim>\<open>if criterion and <test>: continue\<close>. The value
  \<open>Inr True\<close> stands for \<^verbatim>\<open>continue\<close>, \<open>Inr False\<close> for falling through, \<open>Inl\<close> for an
  exception. Python's \<^verbatim>\<open>and\<close> tests the truth value of the criterion first: \<^verbatim>\<open>None\<close>,
  the empty string and \<^verbatim>\<open>0.0\<close> are false, every datetime is true. The test reads an
  attribute of the record: \<^verbatim>\<open>None.lower()\<close> raises \<^verbatim>\<open>AttributeError\<close> and
  \<^verbatim>\<open>None < 1.0\<close> raises \<^verbatim>\<open>TypeError\<close>.
\<close>

definition text_mismatch :: "(string \<Rightarrow> string) \<Rightarrow> string option \<Rightarrow> string option \<Rightarrow> error + bool" where
  "text_mismatch lower criterion field =
     (case criterion of
        None \<Rightarrow> Inr False
      | Some c \<Rightarrow>
          if c = [] then Inr False
          else (case field of
                  None \<Rightarrow> Inl InternalError
                | Some f \<Rightarrow> Inr (\<not> contains (lower c) (lower f))))"

definition below_price_min :: "real option \<Rightarrow> real option \<Rightarrow> error + bool" where
  "below_price_min price_min p =
     (case price_min of
        None \<Rightarrow> Inr False
      | Some lo \<Rightarrow>
          if lo = 0 then Inr False
          else (case p of None \<Rightarrow> Inl InternalError | Some x \<Rightarrow> Inr (x < lo)))"

definition above_price_max :: "real option \<Rightarrow> real option \<Rightarrow> error + bool" where
  "above_price_max price_max p =
     (case price_max of
        None \<Rightarrow> Inr False
      | Some hi \<Rightarrow>
          if hi = 0 then Inr False
          else (case p of None \<Rightarrow> Inl InternalError | Some x \<Rightarrow> Inr (x > hi)))"

definition before_created_after :: "datetime option \<Rightarrow> datetime \<Rightarrow> error + bool" where
  "before_created_after created_after t =
     (case created_after of None \<Rightarrow> Inr False | Some lo \<Rightarrow> datetime_lt t lo)"

definition after_created_before :: "datetime option \<Rightarrow> datetime \<Rightarrow> error + bool" where
  "after_created_before created_before t =
     (case created_before of None \<Rightarrow> Inr False | Some hi \<Rightarrow> datetime_gt t hi)"

definition or_else :: "error + bool \<Rightarrow> error + bool \<Rightarrow> error + bool" where
  "or_else c rest = (case c of Inl e \<Rightarrow> Inl e | Inr True \<Rightarrow> Inr True | Inr False \<Rightarrow> rest)"

text \<open>The seven tests of the loop body in the order of the source.\<close>

definition skipped :: "(string \<Rightarrow> string) \<Rightarrow> search_query \<Rightarrow> advertisement \<Rightarrow> error + bool" where
  "skipped lower q ad =
     or_else (text_mismatch lower (q_title q) (title ad))
    (or_else (text_mismatch lower (q_description q) (description ad))
    (or_else (text_mismatch lower (q_author q) (author ad))
    (or_else (below_price_min (q_price_min q) (price ad))
    (or_else (above_price_max (q_price_max q) (price ad))
    (or_else (before_created_after (q_created_after q) (created_at ad))
             (after_created_before (q_created_before q) (created_at ad)))))))"

fun search_loop ::
  "(string \<Rightarrow> string) \<Rightarrow> search_query \<Rightarrow> advertisement list \<Rightarrow> advertisement list \<Rightarrow> error + advertisement list" where
  "search_loop lower q [] results = Inr results"
| "search_loop lower q (ad # ads) results =
     (case skipped lower q ad of
        Inl e \<Rightarrow> Inl e
      | Inr True \<Rightarrow> search_loop lower q ads results
      | Inr False \<Rightarrow> search_loop lower q ads (results @ [ad]))"

text \<open>\<^verbatim>\<open>price_min and price_max and price_min > price_max\<close>.\<close>

definition price_range_rejected :: "search_query \<Rightarrow> bool" where
  "price_range_rejected q =
     (case q_price_min q of
        None \<Rightarrow> False
      | Some lo \<Rightarrow>
          lo \<noteq> 0 \<and> (case q_price_max q of None \<Rightarrow> False | Some hi \<Rightarrow> hi \<noteq> 0 \<and> lo > hi))"

definition search_advertisements ::
  "(string \<Rightarrow> string) \<Rightarrow> search_query \<Rightarrow> db \<Rightarrow> (error + advertisement list) \<times> db" where
  "search_advertisements lower q advertisements_db =
     (if price_range_rejected q then (Inl InvalidRange, advertisements_db)
      else (search_loop lower q (dict_values advertisements_db) [], advertisements_db))"

definition health_check :: "int \<Rightarrow> db \<Rightarrow> (string \<times> datetime) \<times> db" where
  "health_check utcnow advertisements_db = ((''healthy'', Naive utcnow), advertisements_db)"

section \<open>The routes\<close>

text \<open>
  A request is what the framework hands to a route after decoding: the path parameter, the
  body or the query parameters. A POST also carries the two values its handler draws from
  the environment, and the health probe the clock value. The framework checks the declared
  constraints of the body or query first and answers 422 without calling the handler when
  one fails. What the framework does with the handler's return value (serialisation under
  \<^verbatim>\<open>response_model\<close>) is outside this model.
\<close>

datatype request =
  POST_advertisement string int advertisement_create
| PATCH_advertisement string advertisement_update
| DELETE_advertisement string
| GET_advertisement string
| GET_advertisement_list search_query
| GET_health int

datatype response =
  One advertisement
| Many "advertisement list"
| No_content
| Health string datetime

definition respond :: "('a \<Rightarrow> response) \<Rightarrow> (error + 'a) \<times> db \<Rightarrow> (error + response) \<times> db" where
  "respond f r = (map_sum (\<lambda>e. e) f (fst r), snd r)"

fun route :: "(string \<Rightarrow> string) \<Rightarrow> request \<Rightarrow> db \<Rightarrow> (error + response) \<times> db" where
  "route lower (POST_advertisement uuid4 utcnow ad) d =
     (if AdvertisementCreate_valid ad then respond One (create_advertisement uuid4 utcnow ad d)
      else (Inl ValidationError, d))"
| "route lower (PATCH_advertisement advertisement_id ad_update) d =
     (if AdvertisementUpdate_valid ad_update
      then respond One (update_advertisement advertisement_id ad_update d)
      else (Inl ValidationError, d))"
| "route lower (DELETE_advertisement advertisement_id) d =
     respond (\<lambda>_. No_content) (delete_advertisement advertisement_id d)"
| "route lower (GET_advertisement advertisement_id) d =
     respond One (get_advertisement advertisement_id d)"
| "route lower (GET_advertisement_list q) d =
     (if search_query_valid q then respond Many (search_advertisements lower q d)
      else (Inl ValidationError, d))"
| "route lower (GET_health utcnow) d =
     (case health_check utcnow d of ((status, timestamp), d') \<Rightarrow> (Inr (Health status timestamp), d'))"

text \<open>A run of the service from a given dictionary, and the dictionaries it passes through.\<close>

definition run :: "(string \<Rightarrow> string) \<Rightarrow> request list \<Rightarrow> db \<Rightarrow> db" where
  "run lower rs d = foldl (\<lambda>s r. snd (route lower r s)) d rs"

text \<open>The identifiers \<^verbatim>\<open>uuid4()\<close> returned in a run: one for each POST that reaches its handler.\<close>

fun drawn :: "request list \<Rightarrow> string list" where
  "drawn [] = []"
| "drawn (POST_advertisement uuid4 utcnow ad # rs) =
     (if AdvertisementCreate_valid ad then uuid4 # drawn rs else drawn rs)"
| "drawn (r # rs) = drawn rs"

section \<open>Notions used in the properties\<close>

text \<open>A search request with no criterion, and a PATCH body with no field set.\<close>

definition no_criteria :: search_query where
  "no_criteria = \<lparr>q_title = None, q_description = None, q_author = None, q_price_min = None,
     q_price_max = None, q_created_after = None, q_created_before = None\<rparr>"

definition nothing_set :: advertisement_update where
  "nothing_set = \<lparr>u_title = None, u_description = None, u_price = None, u_author = None\<rparr>"

text \<open>
  The filter of the specification, in its words: a record satisfies a request when it
  satisfies every supplied criterion, and an absent criterion imposes nothing. Text criteria
  are case-insensitive substring matches, the price bounds and the two time bounds are
  inclusive. Times are compared as instants.
\<close>

fun instant :: "datetime \<Rightarrow> int" where
  "instant (Naive t) = t"
| "instant (Aware t) = t"

definition text_criterion :: "(string \<Rightarrow> string) \<Rightarrow> string option \<Rightarrow> string option \<Rightarrow> bool" where
  "text_criterion lower criterion field =
     (case criterion of
        None \<Rightarrow> True
      | Some c \<Rightarrow> (case field of None \<Rightarrow> False | Some f \<Rightarrow> contains (lower c) (lower f)))"

definition price_criterion :: "(real \<Rightarrow> real \<Rightarrow> bool) \<Rightarrow> real option \<Rightarrow> real option \<Rightarrow> bool" where
  "price_criterion rel bound p =
     (case bound of
        None \<Rightarrow> True
      | Some b \<Rightarrow> (case p of None \<Rightarrow> False | Some x \<Rightarrow> rel x b))"

definition time_criterion :: "(int \<Rightarrow> int \<Rightarrow> bool) \<Rightarrow> datetime option \<Rightarrow> datetime \<Rightarrow> bool" where
  "time_criterion rel bound t =
     (case bound of None \<Rightarrow> True | Some b \<Rightarrow> rel (instant t) (instant b))"

definition satisfies_criteria :: "(string \<Rightarrow> string) \<Rightarrow> search_query \<Rightarrow> advertisement \<Rightarrow> bool" where
  "satisfies_criteria lower q ad =
     (text_criterion lower (q_title q) (title ad)
      \<and> text_criterion lower (q_description q) (description ad)
      \<and> text_criterion lower (q_author q) (author ad)
      \<and> price_criterion (\<ge>) (q_price_min q) (price ad)
      \<and> price_criterion (\<le>) (q_price_max q) (price ad)
      \<and> time_criterion (\<ge>) (q_created_after q) (created_at ad)
      \<and> time_criterion (\<le>) (q_created_before q) (created_at ad))"

text \<open>
  A record as \<^verbatim>\<open>class Advertisement\<close> types it: the four fields hold a value, and the
  timestamp is naive, as \<^verbatim>\<open>datetime.utcnow()\<close> makes it.
\<close>

fun is_naive :: "datetime \<Rightarrow> bool" where
  "is_naive (Naive t) = True"
| "is_naive (Aware t) = False"

definition typed_record :: "advertisement \<Rightarrow> bool" where
  "typed_record a =
     (title a \<noteq> None \<and> description a \<noteq> None \<and> price a \<noteq> None \<and> author a \<noteq> None
      \<and> is_naive (created_at a))"

definition naive_bound :: "datetime option \<Rightarrow> bool" where
  "naive_bound b = (case b of None \<Rightarrow> True | Some t \<Rightarrow> is_naive t)"

text \<open>
  The invariants of the data model on a dictionary: every entry is filed under its own id,
  no id occurs twice, and every record meets the constraints of \<^verbatim>\<open>class Advertisement\<close>.
\<close>

definition keyed :: "db \<Rightarrow> bool" where
  "keyed d = list_all (\<lambda>(k, a). ad_id a = k) d"

definition ids_unique :: "db \<Rightarrow> bool" where
  "ids_unique d = distinct (map ad_id (dict_values d))"

definition store_invariant :: "db \<Rightarrow> bool" where
  "store_invariant d = (ids_unique d \<and> list_all Advertisement_valid (dict_values d))"

definition well_formed :: "db \<Rightarrow> bool" where
  "well_formed d = (keyed d \<and> distinct (map fst d) \<and> list_all Advertisement_valid (map snd d))"

text \<open>A PATCH body that sets no field to \<^verbatim>\<open>null\<close>, and a request that carries no such body.\<close>

definition null_free :: "advertisement_update \<Rightarrow> bool" where
  "null_free u =
     (u_title u \<noteq> Some None \<and> u_description u \<noteq> Some None \<and> u_price u \<noteq> Some None
      \<and> u_author u \<noteq> Some None)"

fun sets_no_null :: "request \<Rightarrow> bool" where
  "sets_no_null (PATCH_advertisement advertisement_id ad_update) = null_free ad_update"
| "sets_no_null r = True"

text \<open>
  On text made of ASCII characters \<^verbatim>\<open>str.lower()\<close> maps the letters A to Z to a to z and
  leaves every other character alone. The closed examples below, whose texts are ASCII, take
  this function for the parameter \<open>lower\<close>.
\<close>

definition ascii_lower_char :: "char \<Rightarrow> char" where
  "ascii_lower_char c =
     (let n = (of_char c :: nat) in if 65 \<le> n \<and> n \<le> 90 then char_of (n + 32) else c)"

definition ascii_lower :: "string \<Rightarrow> string" where
  "ascii_lower s = map ascii_lower_char s"

text \<open>The record of the specification's scenario, and the record its creation stores.\<close>

definition bike :: advertisement_create where
  "bike = \<lparr>c_title = ''Bike'', c_description = ''Red bike'', c_price = 100, c_author = ''Alice''\<rparr>"

definition bike_ad :: advertisement where
  "bike_ad = \<lparr>ad_id = ''u1'', title = Some ''Bike'', description = Some ''Red bike'',
     price = Some 100, author = Some ''Alice'', created_at = Naive 0\<rparr>"

section \<open>Basic facts about the model\<close>

lemma respond_snd: "snd (respond f r) = snd r"
  by (simp add: respond_def)

lemma respond_fst_Inl: "fst (respond f r) = Inl e \<longleftrightarrow> fst r = Inl e"
  by (cases "fst r") (simp_all add: respond_def)

lemma search_advertisements_snd: "snd (search_advertisements lower q d) = d"
  by (simp add: search_advertisements_def)

lemma get_advertisement_snd: "snd (get_advertisement i d) = d"
  by (simp add: get_advertisement_def split: option.split)

lemma absent_iff: "map_of d i = None \<longleftrightarrow> i \<notin> fst ` set d"
  by (simp add: map_of_eq_None_iff)

lemma run_Nil: "run lower [] d = d"
  by (simp add: run_def)

lemma run_Cons: "run lower (r # rs) d = run lower rs (snd (route lower r d))"
  by (simp add: run_def)

lemma run_snoc: "run lower (rs @ [r]) d = snd (route lower r (run lower rs d))"
  by (simp add: run_def)

lemma bike_valid: "AdvertisementCreate_valid bike"
  by (simp add: AdvertisementCreate_valid_def bike_def length_between_def)

lemma bike_title: "c_title bike = ''Bike''"
  by (simp add: bike_def)

lemma Advertisement_init_valid:
  "AdvertisementCreate_valid ad \<Longrightarrow>
   Advertisement_init uuid4 utcnow ad =
     Inr \<lparr>ad_id = uuid4, title = Some (c_title ad), description = Some (c_description ad),
          price = Some (c_price ad), author = Some (c_author ad), created_at = Naive utcnow\<rparr>"
  by (simp add: Advertisement_init_def AdvertisementCreate_valid_def Advertisement_valid_def
      required_str_ok_def required_gt0_ok_def)

lemma create_advertisement_valid:
  "AdvertisementCreate_valid ad \<Longrightarrow>
   create_advertisement uuid4 utcnow ad d =
     (Inr \<lparr>ad_id = uuid4, title = Some (c_title ad), description = Some (c_description ad),
          price = Some (c_price ad), author = Some (c_author ad), created_at = Naive utcnow\<rparr>,
      AList.update uuid4
         \<lparr>ad_id = uuid4, title = Some (c_title ad), description = Some (c_description ad),
          price = Some (c_price ad), author = Some (c_author ad), created_at = Naive utcnow\<rparr> d)"
  by (simp add: create_advertisement_def Advertisement_init_valid)

lemma run_bike: "run ascii_lower [POST_advertisement ''u1'' 0 bike] [] = [(''u1'', bike_ad)]"
  by (simp add: run_def bike_valid respond_def create_advertisement_valid)
     (simp add: bike_def bike_ad_def)

subsection \<open>Substring test\<close>

lemma contains_Nil: "contains [] ys"
  by (cases ys) simp_all

lemma contains_iff: "contains xs ys \<longleftrightarrow> (\<exists>ps ss. ys = ps @ xs @ ss)"
proof (induction ys)
  case Nil
  then show ?case by auto
next
  case (Cons y ys)
  have "take (length xs) (y # ys) = xs \<longleftrightarrow> (\<exists>ss. y # ys = xs @ ss)"
    by (metis append_eq_conv_conj append_take_drop_id)
  moreover have "(\<exists>ps ss. y # ys = ps @ xs @ ss)
      \<longleftrightarrow> (\<exists>ss. y # ys = xs @ ss) \<or> (\<exists>ps ss. ys = ps @ xs @ ss)"
  proof
    assume "\<exists>ps ss. y # ys = ps @ xs @ ss"
    then obtain ps ss where e: "y # ys = ps @ xs @ ss" by blast
    show "(\<exists>ss. y # ys = xs @ ss) \<or> (\<exists>ps ss. ys = ps @ xs @ ss)"
    proof (cases ps)
      case Nil
      with e show ?thesis by auto
    next
      case (Cons p ps')
      with e have "ys = ps' @ xs @ ss" by simp
      then show ?thesis by blast
    qed
  next
    assume "(\<exists>ss. y # ys = xs @ ss) \<or> (\<exists>ps ss. ys = ps @ xs @ ss)"
    then show "\<exists>ps ss. y # ys = ps @ xs @ ss"
    proof
      assume "\<exists>ss. y # ys = xs @ ss"
      then obtain ss where "y # ys = [] @ xs @ ss" by auto
      then show ?thesis by blast
    next
      assume "\<exists>ps ss. ys = ps @ xs @ ss"
      then obtain ps ss where "y # ys = (y # ps) @ xs @ ss" by auto
      then show ?thesis by blast
    qed
  qed
  ultimately show ?case using Cons.IH by simp
qed

subsection \<open>The search loop computes the filter of the specification\<close>

lemma text_mismatch_typed:
  "field \<noteq> None \<Longrightarrow> query_str_ok c \<Longrightarrow>
   text_mismatch lower c field = Inr (\<not> text_criterion lower c field)"
  by (auto simp add: text_mismatch_def text_criterion_def query_str_ok_def
      split: option.splits)

lemma below_price_min_typed:
  "p \<noteq> None \<Longrightarrow> query_gt0_ok c \<Longrightarrow> below_price_min c p = Inr (\<not> price_criterion (\<ge>) c p)"
  by (auto simp add: below_price_min_def price_criterion_def query_gt0_ok_def
      split: option.splits)

lemma above_price_max_typed:
  "p \<noteq> None \<Longrightarrow> query_gt0_ok c \<Longrightarrow> above_price_max c p = Inr (\<not> price_criterion (\<le>) c p)"
  by (auto simp add: above_price_max_def price_criterion_def query_gt0_ok_def
      split: option.splits)

lemma before_created_after_typed:
  "is_naive t \<Longrightarrow> naive_bound c \<Longrightarrow>
   before_created_after c t = Inr (\<not> time_criterion (\<ge>) c t)"
  by (cases t; cases c; (cases "the c")?)
     (auto simp add: before_created_after_def time_criterion_def naive_bound_def)

lemma after_created_before_typed:
  "is_naive t \<Longrightarrow> naive_bound c \<Longrightarrow>
   after_created_before c t = Inr (\<not> time_criterion (\<le>) c t)"
  by (cases t; cases c; (cases "the c")?)
     (auto simp add: after_created_before_def time_criterion_def naive_bound_def datetime_gt_def)

lemma or_else_Inr: "or_else (Inr a) (Inr b) = Inr (a \<or> b)"
  by (cases a) (simp_all add: or_else_def)

lemma skipped_typed:
  assumes "typed_record ad" and "search_query_valid q"
    and "naive_bound (q_created_after q)" and "naive_bound (q_created_before q)"
  shows "skipped lower q ad = Inr (\<not> satisfies_criteria lower q ad)"
  using assms
  by (simp add: skipped_def typed_record_def search_query_valid_def text_mismatch_typed
      below_price_min_typed above_price_max_typed before_created_after_typed
      after_created_before_typed or_else_Inr satisfies_criteria_def)

lemma search_loop_typed:
  assumes "search_query_valid q"
    and "naive_bound (q_created_after q)" and "naive_bound (q_created_before q)"
  shows "list_all typed_record ads \<Longrightarrow>
    search_loop lower q ads acc = Inr (acc @ filter (satisfies_criteria lower q) ads)"
  by (induction ads arbitrary: acc) (simp_all add: skipped_typed assms)

lemma price_range_rejected_valid:
  "search_query_valid q \<Longrightarrow>
   price_range_rejected q \<longleftrightarrow>
     (\<exists>lo hi. q_price_min q = Some lo \<and> q_price_max q = Some hi \<and> lo > hi)"
  by (auto simp add: price_range_rejected_def search_query_valid_def query_gt0_ok_def
      split: option.splits)

lemma search_is_filter:
  assumes "search_query_valid q" and "list_all typed_record (dict_values d)"
    and "naive_bound (q_created_after q)" and "naive_bound (q_created_before q)"
  shows "search_advertisements lower q d =
     (if \<exists>lo hi. q_price_min q = Some lo \<and> q_price_max q = Some hi \<and> lo > hi
      then Inl InvalidRange
      else Inr (filter (satisfies_criteria lower q) (dict_values d)), d)"
  using assms
  by (simp add: search_advertisements_def price_range_rejected_valid search_loop_typed)

subsection \<open>Errors of the search loop\<close>

lemma or_else_error: "or_else c rest = Inl e \<Longrightarrow> c = Inl e \<or> rest = Inl e"
  by (auto simp add: or_else_def split: sum.splits bool.splits)

lemma text_mismatch_error: "text_mismatch lower c f = Inl e \<Longrightarrow> e = InternalError"
  by (auto simp add: text_mismatch_def split: option.splits if_splits)

lemma below_price_min_error: "below_price_min c f = Inl e \<Longrightarrow> e = InternalError"
  by (auto simp add: below_price_min_def split: option.splits if_splits)

lemma above_price_max_error: "above_price_max c f = Inl e \<Longrightarrow> e = InternalError"
  by (auto simp add: above_price_max_def split: option.splits if_splits)

lemma datetime_lt_error: "datetime_lt a b = Inl e \<Longrightarrow> e = InternalError"
  by (cases a; cases b) auto

lemma before_created_after_error: "before_created_after c t = Inl e \<Longrightarrow> e = InternalError"
  by (auto simp add: before_created_after_def split: option.splits dest: datetime_lt_error)

lemma after_created_before_error: "after_created_before c t = Inl e \<Longrightarrow> e = InternalError"
  by (auto simp add: after_created_before_def datetime_gt_def split: option.splits
      dest: datetime_lt_error)

lemma skipped_error: "skipped lower q ad = Inl e \<Longrightarrow> e = InternalError"
  unfolding skipped_def
  by (blast dest: or_else_error text_mismatch_error below_price_min_error
      above_price_max_error before_created_after_error after_created_before_error)

lemma search_loop_error: "search_loop lower q ads acc = Inl e \<Longrightarrow> e = InternalError"
  by (induction ads arbitrary: acc) (auto split: sum.splits bool.splits dest: skipped_error)

subsection \<open>The search without criteria\<close>

lemma skipped_no_criteria: "skipped lower no_criteria ad = Inr False"
  by (simp add: skipped_def no_criteria_def or_else_def text_mismatch_def below_price_min_def
      above_price_max_def before_created_after_def after_created_before_def)

lemma search_loop_no_criteria: "search_loop lower no_criteria ads acc = Inr (acc @ ads)"
  by (induction ads arbitrary: acc) (simp_all add: skipped_no_criteria)

lemma no_criteria_valid: "search_query_valid no_criteria"
  by (simp add: search_query_valid_def query_str_ok_def query_gt0_ok_def no_criteria_def)

lemma no_criteria_range: "\<not> price_range_rejected no_criteria"
  by (simp add: price_range_rejected_def no_criteria_def)

subsection \<open>The update loop\<close>

lemma foldl_setattr_fields:
  "foldl setattr a (dict_exclude_unset u) =
     a\<lparr>title := (case u_title u of None \<Rightarrow> title a | Some v \<Rightarrow> v),
       description := (case u_description u of None \<Rightarrow> description a | Some v \<Rightarrow> v),
       price := (case u_price u of None \<Rightarrow> price a | Some v \<Rightarrow> v),
       author := (case u_author u of None \<Rightarrow> author a | Some v \<Rightarrow> v)\<rparr>"
  by (simp add: dict_exclude_unset_def split: option.split)

lemma update_other_key: "k \<noteq> i \<Longrightarrow> map_of (AList.update i v d) k = map_of d k"
  by (simp add: AList.update_conv')

lemma update_present_keys: "map_of d i = Some a \<Longrightarrow> map fst (AList.update i v d) = map fst d"
  by (simp add: AList.update_keys) (metis domI dom_map_of_conv_image_fst set_map)

lemma foldl_setattr_id: "ad_id (foldl setattr a fs) = ad_id a"
proof (induction fs arbitrary: a)
  case Nil
  then show ?case by simp
next
  case (Cons f fs)
  then show ?case by (cases f) simp_all
qed

lemma setattr_valid:
  assumes "Advertisement_valid a" and "AdvertisementUpdate_valid u" and "null_free u"
  shows "Advertisement_valid (foldl setattr a (dict_exclude_unset u))"
  using assms
  by (auto simp add: dict_exclude_unset_def Advertisement_valid_def AdvertisementUpdate_valid_def
      null_free_def optional_str_ok_def optional_gt0_ok_def required_str_ok_def
      required_gt0_ok_def split: option.splits)

subsection \<open>Keys of the dictionary along a run\<close>

lemma drawn_append: "drawn (xs @ ys) = drawn xs @ drawn ys"
  by (induction xs rule: drawn.induct) simp_all

lemma drawn_take: "set (drawn (take n rs)) \<subseteq> set (drawn rs)"
proof -
  have "drawn rs = drawn (take n rs) @ drawn (drop n rs)"
    by (metis append_take_drop_id drawn_append)
  then show ?thesis by simp
qed

lemma route_keys: "fst ` set (snd (route lower r d)) \<subseteq> fst ` set d \<union> set (drawn [r])"
proof (cases r)
  case (POST_advertisement uuid4 utcnow ad)
  then show ?thesis
    by (auto simp add: respond_snd create_advertisement_valid AList.dom_update)
next
  case (PATCH_advertisement i u)
  then show ?thesis
    by (auto simp add: respond_snd update_advertisement_def Let_def AList.dom_update
        split: option.splits intro: rev_image_eqI dest: map_of_SomeD)
next
  case (DELETE_advertisement i)
  then show ?thesis
    using AList.dom_delete_subset[of i d]
    by (auto simp add: respond_snd delete_advertisement_def split: option.splits)
next
  case (GET_advertisement i)
  then show ?thesis by (simp add: respond_snd get_advertisement_def split: option.splits)
next
  case (GET_advertisement_list q)
  then show ?thesis by (simp add: respond_snd search_advertisements_def)
next
  case (GET_health t)
  then show ?thesis by (simp add: health_check_def)
qed

lemma run_keys: "fst ` set (run lower rs d) \<subseteq> fst ` set d \<union> set (drawn rs)"
proof (induction rs rule: rev_induct)
  case Nil
  then show ?case by (simp add: run_Nil)
next
  case (snoc r rs)
  have "fst ` set (run lower (rs @ [r]) d) \<subseteq> fst ` set (run lower rs d) \<union> set (drawn [r])"
    by (simp add: run_snoc route_keys)
  with snoc.IH show ?case unfolding drawn_append set_append by blast
qed

lemma update_absent: "k \<notin> fst ` set d \<Longrightarrow> AList.update k v d = d @ [(k, v)]"
  by (induction d) auto

lemma keyed_update: "keyed d \<Longrightarrow> ad_id a = k \<Longrightarrow> keyed (AList.update k a d)"
  by (induction d) (auto simp add: keyed_def)

lemma keyed_delete: "keyed d \<Longrightarrow> keyed (AList.delete k d)"
  by (induction d) (auto simp add: keyed_def)

lemma keyed_lookup: "keyed d \<Longrightarrow> map_of d k = Some a \<Longrightarrow> ad_id a = k"
  by (induction d) (auto simp add: keyed_def split: if_splits)

lemma route_keyed: "keyed d \<Longrightarrow> keyed (snd (route lower r d))"
proof (cases r)
  case (POST_advertisement uuid4 utcnow ad)
  assume "keyed d"
  with POST_advertisement show ?thesis
    by (simp add: respond_snd create_advertisement_valid keyed_update)
next
  case (PATCH_advertisement i u)
  assume "keyed d"
  with PATCH_advertisement show ?thesis
    by (auto simp add: respond_snd update_advertisement_def Let_def foldl_setattr_id
        keyed_lookup split: option.splits intro!: keyed_update)
next
  case (DELETE_advertisement i)
  assume "keyed d"
  with DELETE_advertisement show ?thesis
    by (simp add: respond_snd delete_advertisement_def keyed_delete split: option.splits)
next
  case (GET_advertisement i)
  assume "keyed d"
  with GET_advertisement show ?thesis
    by (simp add: respond_snd get_advertisement_def split: option.splits)
next
  case (GET_advertisement_list q)
  assume "keyed d"
  with GET_advertisement_list show ?thesis by (simp add: respond_snd search_advertisements_def)
next
  case (GET_health t)
  assume "keyed d"
  with GET_health show ?thesis by (simp add: health_check_def)
qed

lemma run_keyed: "keyed d \<Longrightarrow> keyed (run lower rs d)"
  by (induction rs arbitrary: d) (simp_all add: run_Nil run_Cons route_keyed)

lemma keyed_entry: "keyed d \<Longrightarrow> (k, a) \<in> set d \<Longrightarrow> ad_id a = k"
  by (auto simp add: keyed_def list_all_iff)

subsection \<open>Preservation of the data-model invariants\<close>

lemma keyed_ids: "keyed d \<Longrightarrow> map ad_id (dict_values d) = map fst d"
  by (induction d) (auto simp add: keyed_def dict_values_def)

lemma list_all_update:
  "list_all P (map snd d) \<Longrightarrow> P v \<Longrightarrow> list_all P (map snd (AList.update k v d))"
  by (induction d) auto

lemma list_all_delete: "list_all P (map snd d) \<Longrightarrow> list_all P (map snd (AList.delete k d))"
  by (induction d) auto

lemma list_all_lookup: "list_all P (map snd d) \<Longrightarrow> map_of d k = Some a \<Longrightarrow> P a"
  by (induction d) (auto split: if_splits)

lemma route_distinct: "distinct (map fst d) \<Longrightarrow> distinct (map fst (snd (route lower r d)))"
  by (cases r)
     (auto simp add: respond_snd create_advertisement_def update_advertisement_def
      delete_advertisement_def get_advertisement_def search_advertisements_def health_check_def
      Let_def AList.distinct_update AList.distinct_delete split: option.splits sum.splits)

lemma run_distinct: "distinct (map fst d) \<Longrightarrow> distinct (map fst (run lower rs d))"
  by (induction rs arbitrary: d) (simp_all add: run_Nil run_Cons route_distinct)

lemma route_valid:
  assumes "list_all Advertisement_valid (map snd d)" and "sets_no_null r"
  shows "list_all Advertisement_valid (map snd (snd (route lower r d)))"
proof (cases r)
  case (POST_advertisement uuid4 utcnow ad)
  with assms show ?thesis
    by (auto simp add: respond_snd create_advertisement_def Advertisement_init_def Let_def
        intro!: list_all_update split: sum.splits if_splits)
next
  case (PATCH_advertisement i u)
  with assms show ?thesis
    by (auto simp add: respond_snd update_advertisement_def Let_def
        intro!: list_all_update setattr_valid dest: list_all_lookup split: option.splits)
next
  case (DELETE_advertisement i)
  with assms show ?thesis
    by (auto simp add: respond_snd delete_advertisement_def list_all_delete split: option.splits)
next
  case (GET_advertisement i)
  with assms show ?thesis
    by (simp add: respond_snd get_advertisement_def split: option.splits)
next
  case (GET_advertisement_list q)
  with assms show ?thesis by (simp add: respond_snd search_advertisements_def)
next
  case (GET_health t)
  with assms show ?thesis by (simp add: health_check_def)
qed

lemma run_well_formed:
  "well_formed d \<Longrightarrow> list_all sets_no_null rs \<Longrightarrow> well_formed (run lower rs d)"
proof (induction rs arbitrary: d)
  case Nil
  then show ?case by (simp add: run_Nil)
next
  case (Cons r rs)
  from Cons.prems have "well_formed (snd (route lower r d))"
    by (simp add: well_formed_def route_keyed route_distinct route_valid)
  with Cons show ?case by (simp add: run_Cons)
qed

lemma well_formed_invariant:
  assumes "well_formed d"
  shows "store_invariant d"
proof -
  from assms have "map ad_id (dict_values d) = map fst d"
    by (simp add: well_formed_def keyed_ids)
  moreover from assms have "list_all Advertisement_valid (dict_values d)"
    by (simp add: well_formed_def dict_values_def)
  ultimately show ?thesis
    using assms by (simp add: well_formed_def store_invariant_def ids_unique_def)
qed

lemma invariant_without_null: "list_all sets_no_null rs \<Longrightarrow> store_invariant (run lower rs [])"
  by (rule well_formed_invariant, rule run_well_formed) (simp_all add: well_formed_def keyed_def)

section \<open>The claims\<close>

subsection \<open>C1: the search result is the filtered value sequence\<close>

text \<open>
  Claim C1 says that for every store and every set of supplied criteria the search returns
  the values of the store, in order, restricted to the records that satisfy every supplied
  criterion. Lemma \<open>search_is_filter\<close> above proves this for requests that pass the
  declared constraints, on typed records, when the two time bounds are naive. The handler
  does not return that list for every request it can receive: \<^verbatim>\<open>created_at\<close> is naive,
  and a bound sent with a UTC offset is aware, so \<^verbatim>\<open>ad.created_at < created_after\<close>
  raises. After the one creation of the specification's scenario, the request with
  \<^verbatim>\<open>created_after\<close> at the aware instant 0 passes validation, the stored record satisfies
  the criterion (its instant is 0), and the route answers with an internal error instead of
  the list holding that record.
\<close>

theorem search_aware_bound_fails:
  "search_query_valid (no_criteria\<lparr>q_created_after := Some (Aware 0)\<rparr>)
   \<and> run ascii_lower [POST_advertisement ''u1'' 0 bike] [] = [(''u1'', bike_ad)]
   \<and> satisfies_criteria ascii_lower (no_criteria\<lparr>q_created_after := Some (Aware 0)\<rparr>) bike_ad
   \<and> route ascii_lower (GET_advertisement_list (no_criteria\<lparr>q_created_after := Some (Aware 0)\<rparr>))
        [(''u1'', bike_ad)] = (Inl InternalError, [(''u1'', bike_ad)])"
proof -
  have v: "search_query_valid (no_criteria\<lparr>q_created_after := Some (Aware 0)\<rparr>)"
    by (simp add: search_query_valid_def no_criteria_def query_str_ok_def query_gt0_ok_def)
  have s: "satisfies_criteria ascii_lower (no_criteria\<lparr>q_created_after := Some (Aware 0)\<rparr>) bike_ad"
    by (simp add: satisfies_criteria_def no_criteria_def bike_ad_def text_criterion_def
        price_criterion_def time_criterion_def)
  have k: "skipped ascii_lower (no_criteria\<lparr>q_created_after := Some (Aware 0)\<rparr>) bike_ad = Inl InternalError"
    by (simp add: skipped_def no_criteria_def bike_ad_def or_else_def text_mismatch_def
        below_price_min_def above_price_max_def before_created_after_def)
  have "route ascii_lower (GET_advertisement_list (no_criteria\<lparr>q_created_after := Some (Aware 0)\<rparr>))
        [(''u1'', bike_ad)] = (Inl InternalError, [(''u1'', bike_ad)])"
    using v k
    by (simp add: respond_def search_advertisements_def dict_values_def)
       (simp add: price_range_rejected_def no_criteria_def)
  with v s run_bike show ?thesis by simp
qed

subsection \<open>C2: an update changes only the supplied fields\<close>

text \<open>
  Claim C2: for every stored record and every partial update, the update changes only the
  fields the update supplies. The id and the timestamp keep their values, each of the four
  other fields takes the supplied value when one is supplied and keeps its own otherwise,
  every other entry of the dictionary and the order of the keys are left alone, and an
  update that supplies nothing returns the record, and leaves the dictionary, unchanged.
  A body that passes the declared constraints gets the same answer from the route.
\<close>

theorem update_changes_only_supplied_fields:
  assumes "map_of d i = Some a"
  shows "\<exists>a'. update_advertisement i u d = (Inr a', AList.update i a' d)
     \<and> (AdvertisementUpdate_valid u \<longrightarrow>
          route lower (PATCH_advertisement i u) d = (Inr (One a'), AList.update i a' d))
     \<and> ad_id a' = ad_id a \<and> created_at a' = created_at a
     \<and> title a' = (case u_title u of None \<Rightarrow> title a | Some v \<Rightarrow> v)
     \<and> description a' = (case u_description u of None \<Rightarrow> description a | Some v \<Rightarrow> v)
     \<and> price a' = (case u_price u of None \<Rightarrow> price a | Some v \<Rightarrow> v)
     \<and> author a' = (case u_author u of None \<Rightarrow> author a | Some v \<Rightarrow> v)
     \<and> (\<forall>k. k \<noteq> i \<longrightarrow> map_of (AList.update i a' d) k = map_of d k)
     \<and> map fst (AList.update i a' d) = map fst d
     \<and> (u = nothing_set \<longrightarrow> a' = a \<and> AList.update i a' d = d)"
proof -
  let ?a' = "foldl setattr a (dict_exclude_unset u)"
  have handler: "update_advertisement i u d = (Inr ?a', AList.update i ?a' d)"
    using assms by (simp add: update_advertisement_def Let_def)
  then have routed: "AdvertisementUpdate_valid u \<longrightarrow>
      route lower (PATCH_advertisement i u) d = (Inr (One ?a'), AList.update i ?a' d)"
    by (simp add: respond_def)
  have fields: "ad_id ?a' = ad_id a" "created_at ?a' = created_at a"
    "title ?a' = (case u_title u of None \<Rightarrow> title a | Some v \<Rightarrow> v)"
    "description ?a' = (case u_description u of None \<Rightarrow> description a | Some v \<Rightarrow> v)"
    "price ?a' = (case u_price u of None \<Rightarrow> price a | Some v \<Rightarrow> v)"
    "author ?a' = (case u_author u of None \<Rightarrow> author a | Some v \<Rightarrow> v)"
    by (simp_all add: foldl_setattr_fields)
  have others: "\<forall>k. k \<noteq> i \<longrightarrow> map_of (AList.update i ?a' d) k = map_of d k"
    by (simp add: update_other_key)
  have keys: "map fst (AList.update i ?a' d) = map fst d"
    using assms by (rule update_present_keys)
  have empty: "u = nothing_set \<longrightarrow> ?a' = a \<and> AList.update i ?a' d = d"
    using assms by (simp add: foldl_setattr_fields nothing_set_def AList.update_triv)
  from handler routed fields others keys empty show ?thesis by blast
qed

theorem update_changes_only_supplied_fields_witness:
  "map_of [(''u1'', bike_ad)] ''u1'' = Some bike_ad
   \<and> (\<exists>a'. fst (update_advertisement ''u1'' (nothing_set\<lparr>u_price := Some (Some 150)\<rparr>)
               [(''u1'', bike_ad)]) = Inr a'
        \<and> price a' = Some 150 \<and> title a' = Some ''Bike'' \<and> description a' = Some ''Red bike''
        \<and> author a' = Some ''Alice'' \<and> ad_id a' = ''u1'' \<and> created_at a' = Naive 0)"
proof -
  have h: "map_of [(''u1'', bike_ad)] ''u1'' = Some bike_ad" by simp
  from update_changes_only_supplied_fields [OF h, of "nothing_set\<lparr>u_price := Some (Some 150)\<rparr>"]
  obtain a' where
    "update_advertisement ''u1'' (nothing_set\<lparr>u_price := Some (Some 150)\<rparr>) [(''u1'', bike_ad)]
       = (Inr a', AList.update ''u1'' a' [(''u1'', bike_ad)])"
    "ad_id a' = ad_id bike_ad" "created_at a' = created_at bike_ad"
    "title a' = (case u_title (nothing_set\<lparr>u_price := Some (Some 150)\<rparr>) of
        None \<Rightarrow> title bike_ad | Some v \<Rightarrow> v)"
    "description a' = (case u_description (nothing_set\<lparr>u_price := Some (Some 150)\<rparr>) of
        None \<Rightarrow> description bike_ad | Some v \<Rightarrow> v)"
    "price a' = (case u_price (nothing_set\<lparr>u_price := Some (Some 150)\<rparr>) of
        None \<Rightarrow> price bike_ad | Some v \<Rightarrow> v)"
    "author a' = (case u_author (nothing_set\<lparr>u_price := Some (Some 150)\<rparr>) of
        None \<Rightarrow> author bike_ad | Some v \<Rightarrow> v)"
    by blast
  then have "fst (update_advertisement ''u1'' (nothing_set\<lparr>u_price := Some (Some 150)\<rparr>)
               [(''u1'', bike_ad)]) = Inr a'
        \<and> price a' = Some 150 \<and> title a' = Some ''Bike'' \<and> description a' = Some ''Red bike''
        \<and> author a' = Some ''Alice'' \<and> ad_id a' = ''u1'' \<and> created_at a' = Naive 0"
    by (simp add: nothing_set_def bike_ad_def)
  with h show ?thesis by blast
qed

subsection \<open>C3: not found exactly when the id is absent\<close>

text \<open>
  Claim C3: each of get, update and delete fails with \<open>NotFound\<close> if and only if no record
  is stored under the id; after a successful delete of an id, a get of that id fails with
  \<open>NotFound\<close>, and so does a second delete.
\<close>

theorem not_found_iff_absent:
  "(fst (get_advertisement i d) = Inl NotFound \<longleftrightarrow> i \<notin> fst ` set d)
   \<and> (fst (update_advertisement i u d) = Inl NotFound \<longleftrightarrow> i \<notin> fst ` set d)
   \<and> (fst (delete_advertisement i d) = Inl NotFound \<longleftrightarrow> i \<notin> fst ` set d)
   \<and> (fst (delete_advertisement i d) = Inr () \<longrightarrow>
        fst (get_advertisement i (snd (delete_advertisement i d))) = Inl NotFound
        \<and> fst (delete_advertisement i (snd (delete_advertisement i d))) = Inl NotFound)"
  by (auto simp add: get_advertisement_def update_advertisement_def delete_advertisement_def
      Let_def AList.delete_conv' absent_iff[symmetric] split: option.split)

theorem not_found_iff_absent_witness:
  "fst (delete_advertisement ''u1'' [(''u1'', bike_ad)]) = Inr ()
   \<and> fst (get_advertisement ''u1'' (snd (delete_advertisement ''u1'' [(''u1'', bike_ad)])))
       = Inl NotFound
   \<and> fst (delete_advertisement ''u1'' (snd (delete_advertisement ''u1'' [(''u1'', bike_ad)])))
       = Inl NotFound
   \<and> ''u2'' \<notin> fst ` set [(''u1'', bike_ad)]
   \<and> fst (get_advertisement ''u2'' [(''u1'', bike_ad)]) = Inl NotFound"
proof -
  have h: "fst (delete_advertisement ''u1'' [(''u1'', bike_ad)]) = Inr ()"
    by (simp add: delete_advertisement_def)
  have n: "''u2'' \<notin> fst ` set [(''u1'', bike_ad)]" by simp
  from h n not_found_iff_absent [of "''u1''" "[(''u1'', bike_ad)]" nothing_set]
    not_found_iff_absent [of "''u2''" "[(''u1'', bike_ad)]" nothing_set]
  show ?thesis by blast
qed

subsection \<open>C4: creation\<close>

text \<open>
  Claim C4, as amended: for every creation input that passes the declared constraints,
  creation succeeds from every dictionary a run can reach; the id and the timestamp of the
  returned record are the values drawn from \<^verbatim>\<open>uuid4()\<close> and
  \<^verbatim>\<open>datetime.utcnow()\<close>, not values of the request; the returned record is the only
  record of the new dictionary with that id, and the entries under other keys are as before;
  a get of that id returns the same record, field for field. The handler does not test the
  drawn id against the dictionary: the id is previously unseen, the key or id of no record
  in any dictionary the run has passed through, whenever the generator has not returned
  that value before in the run.
\<close>

theorem create_stores_returned_record:
  assumes valid: "AdvertisementCreate_valid ad"
  shows "\<exists>a d'. route lower (POST_advertisement uuid4 utcnow ad) (run lower rs []) = (Inr (One a), d')
     \<and> create_advertisement uuid4 utcnow ad (run lower rs []) = (Inr a, d')
     \<and> a = \<lparr>ad_id = uuid4, title = Some (c_title ad), description = Some (c_description ad),
            price = Some (c_price ad), author = Some (c_author ad), created_at = Naive utcnow\<rparr>
     \<and> (\<forall>(k, b) \<in> set d'. ad_id b = uuid4 \<longrightarrow> b = a)
     \<and> ids_unique d'
     \<and> (\<forall>k. k \<noteq> uuid4 \<longrightarrow> map_of d' k = map_of (run lower rs []) k)
     \<and> get_advertisement uuid4 d' = (Inr a, d')
     \<and> (uuid4 \<notin> set (drawn rs) \<longrightarrow>
          (\<forall>n \<le> length rs. \<forall>(k, b) \<in> set (run lower (take n rs) []).
             k \<noteq> uuid4 \<and> ad_id b \<noteq> uuid4))"
proof -
  let ?a = "\<lparr>ad_id = uuid4, title = Some (c_title ad), description = Some (c_description ad),
            price = Some (c_price ad), author = Some (c_author ad), created_at = Naive utcnow\<rparr>"
  let ?d = "run lower rs []"
  let ?d' = "AList.update uuid4 ?a ?d"
  have created: "create_advertisement uuid4 utcnow ad ?d = (Inr ?a, ?d')"
    using valid by (simp add: create_advertisement_valid)
  then have routed: "route lower (POST_advertisement uuid4 utcnow ad) ?d = (Inr (One ?a), ?d')"
    using valid by (simp add: respond_def)
  have kd: "keyed ?d"
    by (rule run_keyed) (simp add: keyed_def)
  then have kd': "keyed ?d'"
    by (rule keyed_update) simp
  have "distinct (map fst ?d)"
    by (rule run_distinct) simp
  then have dd': "distinct (map fst ?d')"
    by (rule AList.distinct_update)
  have stored: "map_of ?d' uuid4 = Some ?a"
    by (simp add: AList.update_conv')
  have only: "\<forall>(k, b) \<in> set ?d'. ad_id b = uuid4 \<longrightarrow> b = ?a"
  proof -
    have "b = ?a" if m: "(k, b) \<in> set ?d'" and i: "ad_id b = uuid4" for k b
    proof -
      from kd' m have "ad_id b = k" by (rule keyed_entry)
      with i m have "(uuid4, b) \<in> set ?d'" by simp
      with dd' have "map_of ?d' uuid4 = Some b" by simp
      with stored show "b = ?a" by simp
    qed
    then show ?thesis by auto
  qed
  have unique: "ids_unique ?d'"
    using kd' dd' by (simp add: ids_unique_def keyed_ids)
  have others: "\<forall>k. k \<noteq> uuid4 \<longrightarrow> map_of ?d' k = map_of ?d k"
    by (simp add: update_other_key)
  have fetched: "get_advertisement uuid4 ?d' = (Inr ?a, ?d')"
    by (simp add: get_advertisement_def AList.update_conv')
  have never: "uuid4 \<notin> set (drawn rs) \<longrightarrow>
      (\<forall>n \<le> length rs. \<forall>(k, b) \<in> set (run lower (take n rs) []). k \<noteq> uuid4 \<and> ad_id b \<noteq> uuid4)"
  proof
    assume unseen: "uuid4 \<notin> set (drawn rs)"
    have "k \<noteq> uuid4 \<and> ad_id b \<noteq> uuid4"
      if m: "(k, b) \<in> set (run lower (take n rs) [])" for n k b
    proof -
      have "fst ` set (run lower (take n rs) []) \<subseteq> set (drawn rs)"
        using run_keys[of lower "take n rs" "[]"] drawn_take[of n rs] by auto
      with m have "k \<in> set (drawn rs)" by force
      with unseen have "k \<noteq> uuid4" by blast
      moreover have "keyed (run lower (take n rs) [])"
        by (rule run_keyed) (simp add: keyed_def)
      then have "ad_id b = k" using m by (rule keyed_entry)
      ultimately show ?thesis by simp
    qed
    then show "\<forall>n \<le> length rs. \<forall>(k, b) \<in> set (run lower (take n rs) []).
        k \<noteq> uuid4 \<and> ad_id b \<noteq> uuid4"
      by auto
  qed
  from routed created only unique others fetched never show ?thesis by blast
qed

theorem create_stores_returned_record_witness:
  "AdvertisementCreate_valid bike
   \<and> ''u2'' \<notin> set (drawn [POST_advertisement ''u1'' 0 bike])
   \<and> (\<exists>a d'. route ascii_lower (POST_advertisement ''u2'' 5 bike) [(''u1'', bike_ad)]
          = (Inr (One a), d')
        \<and> ad_id a = ''u2'' \<and> created_at a = Naive 5 \<and> title a = Some ''Bike''
        \<and> get_advertisement ''u2'' d' = (Inr a, d')
        \<and> ad_id bike_ad \<noteq> ''u2'')"
proof -
  have f: "''u2'' \<notin> set (drawn [POST_advertisement ''u1'' 0 bike])"
    by (simp add: bike_valid)
  from create_stores_returned_record
    [OF bike_valid, of ascii_lower "''u2''" 5 "[POST_advertisement ''u1'' 0 bike]"]
  obtain a d' where
    r: "route ascii_lower (POST_advertisement ''u2'' 5 bike)
       (run ascii_lower [POST_advertisement ''u1'' 0 bike] []) = (Inr (One a), d')"
    and a: "a = \<lparr>ad_id = ''u2'', title = Some (c_title bike),
          description = Some (c_description bike),
          price = Some (c_price bike), author = Some (c_author bike), created_at = Naive 5\<rparr>"
    and g: "get_advertisement ''u2'' d' = (Inr a, d')"
    and n: "''u2'' \<notin> set (drawn [POST_advertisement ''u1'' 0 bike]) \<longrightarrow>
          (\<forall>n \<le> length [POST_advertisement ''u1'' 0 bike].
            \<forall>(k, b) \<in> set (run ascii_lower (take n [POST_advertisement ''u1'' 0 bike]) []).
             k \<noteq> ''u2'' \<and> ad_id b \<noteq> ''u2'')"
    by blast
  from n f have "\<forall>n \<le> length [POST_advertisement ''u1'' 0 bike].
            \<forall>(k, b) \<in> set (run ascii_lower (take n [POST_advertisement ''u1'' 0 bike]) []).
             k \<noteq> ''u2'' \<and> ad_id b \<noteq> ''u2''"
    by blast
  from this [THEN spec, of "Suc 0"] have u: "ad_id bike_ad \<noteq> ''u2''"
    by (simp add: run_bike)
  from r a g have "route ascii_lower (POST_advertisement ''u2'' 5 bike) [(''u1'', bike_ad)]
          = (Inr (One a), d')
        \<and> ad_id a = ''u2'' \<and> created_at a = Naive 5 \<and> title a = Some ''Bike''
        \<and> get_advertisement ''u2'' d' = (Inr a, d')"
    unfolding run_bike by (simp add: bike_title)
  with bike_valid f u show ?thesis by blast
qed

text \<open>
  Claim C4 as it is written fails when \<^verbatim>\<open>uuid4()\<close> returns a value it has returned
  before: the handler stores the new record under that key without a test. After the
  creation of the scenario under the id \<open>u1\<close>, a second valid creation that draws \<open>u1\<close>
  again succeeds, returns a record whose id is the id of the record stored before, and
  replaces that record.
\<close>

theorem create_repeated_id_counterexample:
  "AdvertisementCreate_valid bike
   \<and> run ascii_lower [POST_advertisement ''u1'' 0 bike] [] = [(''u1'', bike_ad)]
   \<and> ad_id bike_ad = ''u1''
   \<and> route ascii_lower (POST_advertisement ''u1'' 5 bike) [(''u1'', bike_ad)]
       = (Inr (One (bike_ad\<lparr>created_at := Naive 5\<rparr>)),
          [(''u1'', bike_ad\<lparr>created_at := Naive 5\<rparr>)])
   \<and> ad_id (bike_ad\<lparr>created_at := Naive 5\<rparr>) = ad_id bike_ad"
proof -
  have "route ascii_lower (POST_advertisement ''u1'' 5 bike) [(''u1'', bike_ad)]
       = (Inr (One (bike_ad\<lparr>created_at := Naive 5\<rparr>)),
          [(''u1'', bike_ad\<lparr>created_at := Naive 5\<rparr>)])"
    by (simp add: bike_valid respond_def create_advertisement_valid)
       (simp add: bike_def bike_ad_def)
  moreover have "ad_id bike_ad = ''u1''"
    by (simp add: bike_ad_def)
  ultimately show ?thesis
    using bike_valid run_bike by simp
qed

subsection \<open>C5: a reversed price range\<close>

text \<open>
  Claim C5, as amended: when a search request passes the declared constraints of its
  parameters (each supplied price bound is greater than 0), supplies both price bounds and
  \<open>price_min > price_max\<close>, the search fails with \<open>InvalidRange\<close> whatever the dictionary
  holds, and leaves it as it was; a request that does not pass the constraints is answered
  with a validation error, not with \<open>InvalidRange\<close>; and when at most one of the two bounds
  is supplied the search does not fail with \<open>InvalidRange\<close>.
\<close>

theorem invalid_range_rejected:
  "(search_query_valid q \<and> q_price_min q = Some lo \<and> q_price_max q = Some hi \<and> lo > hi
      \<longrightarrow> search_advertisements lower q d = (Inl InvalidRange, d)
          \<and> route lower (GET_advertisement_list q) d = (Inl InvalidRange, d))
   \<and> (\<not> search_query_valid q \<longrightarrow> route lower (GET_advertisement_list q) d = (Inl ValidationError, d))
   \<and> (q_price_min q = None \<or> q_price_max q = None
      \<longrightarrow> fst (search_advertisements lower q d) \<noteq> Inl InvalidRange
          \<and> fst (route lower (GET_advertisement_list q) d) \<noteq> Inl InvalidRange)"
proof (intro conjI impI)
  assume h: "search_query_valid q \<and> q_price_min q = Some lo \<and> q_price_max q = Some hi \<and> lo > hi"
  then have "price_range_rejected q"
    by (auto simp add: price_range_rejected_def search_query_valid_def query_gt0_ok_def)
  then show s: "search_advertisements lower q d = (Inl InvalidRange, d)"
    by (simp add: search_advertisements_def)
  from h s show "route lower (GET_advertisement_list q) d = (Inl InvalidRange, d)"
    by (simp add: respond_def)
next
  assume "\<not> search_query_valid q"
  then show "route lower (GET_advertisement_list q) d = (Inl ValidationError, d)" by simp
next
  assume h: "q_price_min q = None \<or> q_price_max q = None"
  then have n: "\<not> price_range_rejected q"
    by (auto simp add: price_range_rejected_def split: option.splits)
  then show s: "fst (search_advertisements lower q d) \<noteq> Inl InvalidRange"
    by (auto simp add: search_advertisements_def dest: search_loop_error)
  then show "fst (route lower (GET_advertisement_list q) d) \<noteq> Inl InvalidRange"
    by (simp add: respond_fst_Inl)
qed

theorem invalid_range_rejected_witness:
  "search_query_valid (no_criteria\<lparr>q_price_min := Some 10, q_price_max := Some 5\<rparr>)
   \<and> (10 :: real) > 5
   \<and> route ascii_lower (GET_advertisement_list (no_criteria\<lparr>q_price_min := Some 10, q_price_max := Some 5\<rparr>))
        [(''u1'', bike_ad)] = (Inl InvalidRange, [(''u1'', bike_ad)])
   \<and> q_price_max (no_criteria\<lparr>q_price_min := Some 10\<rparr>) = None
   \<and> fst (route ascii_lower (GET_advertisement_list (no_criteria\<lparr>q_price_min := Some 10\<rparr>))
        [(''u1'', bike_ad)]) \<noteq> Inl InvalidRange"
proof -
  have v: "search_query_valid (no_criteria\<lparr>q_price_min := Some 10, q_price_max := Some 5\<rparr>)"
    by (simp add: search_query_valid_def no_criteria_def query_str_ok_def query_gt0_ok_def)
  have b: "q_price_min (no_criteria\<lparr>q_price_min := Some 10, q_price_max := Some 5\<rparr>) = Some 10"
    "q_price_max (no_criteria\<lparr>q_price_min := Some 10, q_price_max := Some 5\<rparr>) = Some 5"
    "(10 :: real) > 5"
    by simp_all
  have n: "q_price_max (no_criteria\<lparr>q_price_min := Some 10\<rparr>) = None"
    by (simp add: no_criteria_def)
  from v b n
    invalid_range_rejected [of "no_criteria\<lparr>q_price_min := Some 10, q_price_max := Some 5\<rparr>"
      10 5 ascii_lower "[(''u1'', bike_ad)]"]
    invalid_range_rejected [of "no_criteria\<lparr>q_price_min := Some 10\<rparr>" 10 5 ascii_lower
      "[(''u1'', bike_ad)]"]
  show ?thesis by blast
qed

text \<open>
  Claim C5 as it is written fails at the request \<^verbatim>\<open>price_min=5&price_max=-1\<close>: both
  bounds are supplied and \<open>price_min > price_max\<close>, and the answer is the validation error
  of \<^verbatim>\<open>Query(None, gt=0)\<close>, not \<open>InvalidRange\<close>.
\<close>

theorem invalid_range_counterexample:
  "q_price_min (no_criteria\<lparr>q_price_min := Some 5, q_price_max := Some (- 1)\<rparr>) = Some 5
   \<and> q_price_max (no_criteria\<lparr>q_price_min := Some 5, q_price_max := Some (- 1)\<rparr>) = Some (- 1)
   \<and> (5 :: real) > - 1
   \<and> route ascii_lower (GET_advertisement_list (no_criteria\<lparr>q_price_min := Some 5, q_price_max := Some (- 1)\<rparr>)) []
       = (Inl ValidationError, [])
   \<and> fst (route ascii_lower (GET_advertisement_list (no_criteria\<lparr>q_price_min := Some 5, q_price_max := Some (- 1)\<rparr>)) [])
       \<noteq> Inl InvalidRange"
  by (simp add: no_criteria_def search_query_valid_def query_gt0_ok_def query_str_ok_def)

subsection \<open>C6: a failed request writes nothing\<close>

text \<open>
  Claim C6: whenever a request to any of the routes fails with a validation error, with
  \<open>NotFound\<close> or with \<open>InvalidRange\<close>, the dictionary after the request is the dictionary
  before it.
\<close>

theorem failed_request_leaves_store:
  assumes "fst (route lower r d) = Inl e" and "e \<in> {ValidationError, NotFound, InvalidRange}"
  shows "snd (route lower r d) = d"
  using assms
  by (cases r) (auto simp add: respond_snd respond_fst_Inl create_advertisement_def
      update_advertisement_def delete_advertisement_def get_advertisement_def
      search_advertisements_def health_check_def Let_def split: option.splits sum.splits if_splits)

theorem failed_request_leaves_store_witness:
  "fst (route ascii_lower (DELETE_advertisement ''u2'') [(''u1'', bike_ad)]) = Inl NotFound
   \<and> NotFound \<in> {ValidationError, NotFound, InvalidRange}
   \<and> snd (route ascii_lower (DELETE_advertisement ''u2'') [(''u1'', bike_ad)]) = [(''u1'', bike_ad)]"
proof -
  have h: "fst (route ascii_lower (DELETE_advertisement ''u2'') [(''u1'', bike_ad)]) = Inl NotFound"
    by (simp add: respond_def delete_advertisement_def)
  have m: "NotFound \<in> {ValidationError, NotFound, InvalidRange}" by simp
  from h m failed_request_leaves_store [OF h m] show ?thesis by blast
qed

subsection \<open>C7: the invariants of the data model\<close>

text \<open>
  Claim C7 says that in every dictionary reachable by creations, updates and deletions with
  validated inputs every record has a unique id, a price greater than 0 and non-empty,
  bounded title, description and author. Lemma \<open>invariant_without_null\<close> above proves this
  for every run in which no PATCH body sets a field to \<^verbatim>\<open>null\<close>. It fails otherwise:
  the body \<^verbatim>\<open>{"title": null}\<close> passes the constraints of \<^verbatim>\<open>AdvertisementUpdate\<close>
  (the field is \<^verbatim>\<open>Optional\<close>), \<^verbatim>\<open>dict(exclude_unset=True)\<close> keeps the field because it
  was set, and \<^verbatim>\<open>setattr\<close> stores \<^verbatim>\<open>None\<close> as the title of the record.
\<close>

theorem patch_null_breaks_invariant:
  "AdvertisementCreate_valid bike
   \<and> AdvertisementUpdate_valid (nothing_set\<lparr>u_title := Some None\<rparr>)
   \<and> run ascii_lower [POST_advertisement ''u1'' 0 bike,
           PATCH_advertisement ''u1'' (nothing_set\<lparr>u_title := Some None\<rparr>)] []
       = [(''u1'', bike_ad\<lparr>title := None\<rparr>)]
   \<and> \<not> store_invariant (run ascii_lower [POST_advertisement ''u1'' 0 bike,
           PATCH_advertisement ''u1'' (nothing_set\<lparr>u_title := Some None\<rparr>)] [])"
proof -
  have v: "AdvertisementUpdate_valid (nothing_set\<lparr>u_title := Some None\<rparr>)"
    by (simp add: AdvertisementUpdate_valid_def nothing_set_def optional_str_ok_def
        optional_gt0_ok_def)
  have r: "run ascii_lower [POST_advertisement ''u1'' 0 bike,
           PATCH_advertisement ''u1'' (nothing_set\<lparr>u_title := Some None\<rparr>)] []
       = [(''u1'', bike_ad\<lparr>title := None\<rparr>)]"
    using run_bike v
    by (simp add: run_def respond_def update_advertisement_def dict_exclude_unset_def
        nothing_set_def Let_def)
  have "\<not> store_invariant [(''u1'', bike_ad\<lparr>title := None\<rparr>)]"
    by (simp add: store_invariant_def dict_values_def Advertisement_valid_def
        required_str_ok_def)
  with bike_valid v r show ?thesis by simp
qed

subsection \<open>C8: the search without criteria\<close>

text \<open>
  Claim C8: for every dictionary, a search request in which every criterion is absent
  returns exactly the records of the dictionary: the handler and the route return the value
  sequence of the dictionary, whose elements are the stored records and nothing else.
\<close>

theorem search_without_criteria:
  "search_advertisements lower no_criteria d = (Inr (dict_values d), d)
   \<and> route lower (GET_advertisement_list no_criteria) d = (Inr (Many (dict_values d)), d)
   \<and> set (dict_values d) = snd ` set d"
  by (simp add: search_advertisements_def search_loop_no_criteria no_criteria_range
      no_criteria_valid respond_def dict_values_def)

subsection \<open>C9: the search interface rejects the values Python treats as false\<close>

text \<open>
  Claim C9: at the search route a supplied price bound that is not greater than 0, or a
  supplied title, description or author criterion that is the empty string, is rejected with
  a validation error, and the dictionary is untouched. So whenever the answer is not that
  validation error, the answer is the handler's, and the handler was called with price bounds
  other than 0 and text criteria other than the empty string: the truth tests of the handler
  then only separate a supplied criterion from an absent one.
\<close>

theorem search_interface_rejects_falsy:
  "((\<exists>p. (q_price_min q = Some p \<or> q_price_max q = Some p) \<and> p \<le> 0)
      \<or> q_title q = Some [] \<or> q_description q = Some [] \<or> q_author q = Some []
     \<longrightarrow> route lower (GET_advertisement_list q) d = (Inl ValidationError, d))
   \<and> (fst (route lower (GET_advertisement_list q) d) \<noteq> Inl ValidationError
     \<longrightarrow> route lower (GET_advertisement_list q) d = respond Many (search_advertisements lower q d)
        \<and> q_price_min q \<noteq> Some 0 \<and> q_price_max q \<noteq> Some 0
        \<and> q_title q \<noteq> Some [] \<and> q_description q \<noteq> Some [] \<and> q_author q \<noteq> Some [])"
proof -
  have rejected: "route lower (GET_advertisement_list q) d = (Inl ValidationError, d)"
    if "(\<exists>p. (q_price_min q = Some p \<or> q_price_max q = Some p) \<and> p \<le> 0)
      \<or> q_title q = Some [] \<or> q_description q = Some [] \<or> q_author q = Some []"
  proof -
    from that have "\<not> search_query_valid q"
      by (auto simp add: search_query_valid_def query_gt0_ok_def query_str_ok_def)
    then show ?thesis by simp
  qed
  have reached: "route lower (GET_advertisement_list q) d = respond Many (search_advertisements lower q d)
        \<and> q_price_min q \<noteq> Some 0 \<and> q_price_max q \<noteq> Some 0
        \<and> q_title q \<noteq> Some [] \<and> q_description q \<noteq> Some [] \<and> q_author q \<noteq> Some []"
    if "fst (route lower (GET_advertisement_list q) d) \<noteq> Inl ValidationError"
  proof -
    from that have "search_query_valid q" by (auto split: if_splits)
    then show ?thesis
      by (auto simp add: search_query_valid_def query_gt0_ok_def query_str_ok_def)
  qed
  from rejected reached show ?thesis by blast
qed

theorem search_interface_rejects_falsy_witness:
  "q_price_max (no_criteria\<lparr>q_price_max := Some 0\<rparr>) = Some 0
   \<and> route ascii_lower (GET_advertisement_list (no_criteria\<lparr>q_price_max := Some 0\<rparr>)) [(''u1'', bike_ad)]
       = (Inl ValidationError, [(''u1'', bike_ad)])
   \<and> fst (route ascii_lower (GET_advertisement_list (no_criteria\<lparr>q_price_min := Some 50\<rparr>))
        [(''u1'', bike_ad)]) \<noteq> Inl ValidationError
   \<and> route ascii_lower (GET_advertisement_list (no_criteria\<lparr>q_price_min := Some 50\<rparr>)) [(''u1'', bike_ad)]
       = respond Many (search_advertisements ascii_lower (no_criteria\<lparr>q_price_min := Some 50\<rparr>)
           [(''u1'', bike_ad)])"
proof -
  have z: "q_price_max (no_criteria\<lparr>q_price_max := Some 0\<rparr>) = Some 0" by simp
  have v: "search_query_valid (no_criteria\<lparr>q_price_min := Some 50\<rparr>)"
    by (simp add: search_query_valid_def no_criteria_def query_str_ok_def query_gt0_ok_def)
  have e: "search_loop ascii_lower q ads acc \<noteq> Inl ValidationError" for q ads acc
    using search_loop_error [of ascii_lower q ads acc ValidationError] by auto
  have n: "fst (route ascii_lower (GET_advertisement_list (no_criteria\<lparr>q_price_min := Some 50\<rparr>))
        [(''u1'', bike_ad)]) \<noteq> Inl ValidationError"
    using v e by (simp add: respond_fst_Inl search_advertisements_def)
  from z n
    search_interface_rejects_falsy [of "no_criteria\<lparr>q_price_max := Some 0\<rparr>" ascii_lower
      "[(''u1'', bike_ad)]"]
    search_interface_rejects_falsy [of "no_criteria\<lparr>q_price_min := Some 50\<rparr>" ascii_lower
      "[(''u1'', bike_ad)]"]
  show ?thesis by (metis order_refl)
qed

subsection \<open>C10: the reading routes\<close>

text \<open>
  Claim C10: get, search and the health probe are read-only. For every dictionary and
  every input, an absent id and any combination of criteria included, the handler and its
  route leave the dictionary as it was, whether they succeed or fail.
\<close>

theorem read_only:
  "snd (get_advertisement i d) = d \<and> snd (search_advertisements lower q d) = d
   \<and> snd (health_check t d) = d
   \<and> snd (route lower (GET_advertisement i) d) = d \<and> snd (route lower (GET_advertisement_list q) d) = d
   \<and> snd (route lower (GET_health t) d) = d"
  by (simp add: respond_snd search_advertisements_snd get_advertisement_snd health_check_def)

end
